theory Spec2Isabelle
  imports Main
begin

section \<open>Python values and exceptions\<close>

text \<open>
  The flag \<open>delete_permanently\<close> is annotated \<open>bool\<close> but Python does not enforce
  the annotation, so the two \<open>delete\<close> methods can receive any object. The values
  below are the ones the specification talks about: \<open>None\<close>, booleans, integers
  and strings.
\<close>

datatype pyval = PyNone | PyBool bool | PyInt int | PyStr string

text \<open>Truthiness, as \<open>bool(v)\<close> computes it.\<close>

fun truthy :: "pyval \<Rightarrow> bool" where
  "truthy PyNone = False"
| "truthy (PyBool b) = b"
| "truthy (PyInt i) = (i \<noteq> 0)"
| "truthy (PyStr s) = (s \<noteq> [])"

text \<open>
  \<open>bool\<close> is a subclass of \<open>int\<close> in Python: \<open>True\<close> is the integer 1 and
  \<open>False\<close> the integer 0, and they compare by that number.
\<close>

fun py_number :: "pyval \<Rightarrow> int option" where
  "py_number (PyBool b) = Some (if b then 1 else 0)"
| "py_number (PyInt i) = Some i"
| "py_number PyNone = None"
| "py_number (PyStr s) = None"

text \<open>The operator \<open>==\<close>: numbers by value, everything else by kind and content.\<close>

definition py_eq :: "pyval \<Rightarrow> pyval \<Rightarrow> bool" where
  "py_eq a b =
     (case py_number a of
        Some i \<Rightarrow> (case py_number b of Some j \<Rightarrow> i = j | None \<Rightarrow> False)
      | None \<Rightarrow> (case py_number b of Some j \<Rightarrow> False | None \<Rightarrow> a = b))"

text \<open>
  Instances of Python's \<open>Exception\<close> class, which is what the clause
  \<open>except Exception\<close> of \<open>soft_delete\<close> catches. The argument is the message.
\<close>

datatype exn =
    AttributeError string
  | TypeError string
  | ValueError string
  | DatabaseError string

section \<open>The host framework\<close>

text \<open>
  The repository extends Django's \<open>QuerySet\<close>, \<open>Manager\<close> and \<open>Model\<close>. Those
  classes are not part of the repository; this section is a reference model of the
  behaviour the repository's methods rely on: one table of one model, queries as
  conjunctions of lookups, and bulk statements that either raise or act on every
  matching row.
\<close>

type_synonym pkey = nat
type_synonym datetime = nat

text \<open>
  A model instance: its primary key (\<open>None\<close> while the instance has never been
  saved), the column the mixin adds (line 59), and every other attribute.
\<close>

record 'a model_instance =
  pk :: "pkey option"
  deleted_at :: "datetime option"
  attrs :: 'a

text \<open>The statements sent to the database, with the keys of the rows they touched.\<close>

datatype stmt =
    SELECT_PKS "pkey list"
  | UPDATE_DELETED_AT "pkey list" "datetime option"
  | DELETE_ROWS "pkey list"
  | UPDATE_ROW pkey
  | INSERT_ROW pkey

text \<open>
  The world outside the Python objects: the stored rows, the wall clock read by
  \<open>timezone.now()\<close>, the outcome of the coming database calls (\<open>Some e\<close>: the
  call raises \<open>e\<close>; an exhausted list: no further failure), and the statements
  executed so far.
\<close>

record 'a world =
  table :: "'a model_instance list"
  clock :: datetime
  pending :: "exn option list"
  statements :: "stmt list"

definition stored_pks :: "'a model_instance list \<Rightarrow> pkey list" where
  "stored_pks rows = List.map_filter pk rows"

definition timezone_now :: "'a world \<Rightarrow> datetime" where
  "timezone_now w = clock w"

text \<open>Every database call first learns whether it fails.\<close>

definition db_call :: "'a world \<Rightarrow> exn option \<times> 'a world" where
  "db_call w =
     (case pending w of
        [] \<Rightarrow> (None, w)
      | f # fs \<Rightarrow> (f, w\<lparr>pending := fs\<rparr>))"

subsection \<open>Query sets\<close>

datatype 'a lookup =
    deleted_at__isnull bool
  | pk__in "pkey list"
  | field_test "'a \<Rightarrow> bool"

fun holds :: "'a lookup \<Rightarrow> 'a model_instance \<Rightarrow> bool" where
  "holds (deleted_at__isnull b) r = ((deleted_at r = None) = b)"
| "holds (pk__in ks) r = (case pk r of None \<Rightarrow> False | Some k \<Rightarrow> k \<in> set ks)"
| "holds (field_test p) r = p (attrs r)"

datatype qs_class = QuerySet | SoftDeleteQuerySet

text \<open>
  A query-set object: its class, its lookups, and the attribute
  \<open>deleted_item_pks\<close> that \<open>soft_delete\<close> creates (\<open>None\<close>: the object has no
  such attribute, which is what \<open>hasattr\<close> tests).
\<close>

record 'a queryset =
  cls :: qs_class
  lookups :: "'a lookup list"
  deleted_item_pks :: "pkey list option"

definition new_queryset :: "qs_class \<Rightarrow> 'a queryset" where
  "new_queryset c = \<lparr>cls = c, lookups = [], deleted_item_pks = None\<rparr>"

text \<open>
  \<open>filter\<close> returns a clone of the same class with one more lookup; the clone
  does not carry attributes that were set on the original object.
\<close>

definition QuerySet_filter :: "'a lookup \<Rightarrow> 'a queryset \<Rightarrow> 'a queryset" where
  "QuerySet_filter l qs = \<lparr>cls = cls qs, lookups = lookups qs @ [l], deleted_item_pks = None\<rparr>"

definition matches :: "'a queryset \<Rightarrow> 'a model_instance \<Rightarrow> bool" where
  "matches qs r = list_all (\<lambda>l. holds l r) (lookups qs)"

text \<open>The rows a query set returns when it is evaluated, and their number.\<close>

definition results :: "'a queryset \<Rightarrow> 'a world \<Rightarrow> 'a model_instance list" where
  "results qs w = filter (matches qs) (table w)"

definition QuerySet_count :: "'a queryset \<Rightarrow> 'a world \<Rightarrow> nat" where
  "QuerySet_count qs w = length (results qs w)"

text \<open>\<open>list(qs.only("pk").values_list("pk", flat=True))\<close>: one SELECT.\<close>

definition QuerySet_values_list_pk ::
  "'a queryset \<Rightarrow> 'a world \<Rightarrow> (exn + pkey list) \<times> 'a world" where
  "QuerySet_values_list_pk qs w =
     (case db_call w of
        (Some e, w1) \<Rightarrow> (Inl e, w1)
      | (None, w1) \<Rightarrow>
          (let ks = stored_pks (results qs w1)
           in (Inr ks, w1\<lparr>statements := statements w1 @ [SELECT_PKS ks]\<rparr>)))"

text \<open>\<open>qs.update(deleted_at=v)\<close>: one UPDATE; returns the number of rows matched.\<close>

definition QuerySet_update ::
  "'a queryset \<Rightarrow> datetime option \<Rightarrow> 'a world \<Rightarrow> (exn + nat) \<times> 'a world" where
  "QuerySet_update qs v w =
     (case db_call w of
        (Some e, w1) \<Rightarrow> (Inl e, w1)
      | (None, w1) \<Rightarrow>
          (Inr (length (results qs w1)),
           w1\<lparr>table := map (\<lambda>r. if matches qs r then r\<lparr>deleted_at := v\<rparr> else r) (table w1),
              statements := statements w1 @ [UPDATE_DELETED_AT (stored_pks (results qs w1)) v]\<rparr>))"

text \<open>The framework's own \<open>QuerySet.delete()\<close>: the matching rows leave the table.\<close>

definition QuerySet_delete :: "'a queryset \<Rightarrow> 'a world \<Rightarrow> (exn + nat) \<times> 'a world" where
  "QuerySet_delete qs w =
     (case db_call w of
        (Some e, w1) \<Rightarrow> (Inl e, w1)
      | (None, w1) \<Rightarrow>
          (Inr (length (results qs w1)),
           w1\<lparr>table := filter (\<lambda>r. \<not> matches qs r) (table w1),
              statements := statements w1 @ [DELETE_ROWS (stored_pks (results qs w1))]\<rparr>))"

subsection \<open>Model instances\<close>

definition fresh_key :: "'a model_instance list \<Rightarrow> pkey" where
  "fresh_key rows = Suc (fold max (stored_pks rows) 0)"

text \<open>
  \<open>Model.save()\<close>: an instance with a key overwrites the row of that key, or is
  inserted when there is none; an instance without a key is inserted under a new
  key, which it then carries.
\<close>

definition Model_save ::
  "'a model_instance \<Rightarrow> 'a world \<Rightarrow> (exn + unit) \<times> 'a model_instance \<times> 'a world" where
  "Model_save inst w =
     (case db_call w of
        (Some e, w1) \<Rightarrow> (Inl e, inst, w1)
      | (None, w1) \<Rightarrow>
          (case pk inst of
             Some k \<Rightarrow>
               if k \<in> set (stored_pks (table w1))
               then (Inr (), inst,
                     w1\<lparr>table := map (\<lambda>r. if pk r = Some k then inst else r) (table w1),
                        statements := statements w1 @ [UPDATE_ROW k]\<rparr>)
               else (Inr (), inst,
                     w1\<lparr>table := table w1 @ [inst],
                        statements := statements w1 @ [UPDATE_ROW k, INSERT_ROW k]\<rparr>)
           | None \<Rightarrow>
               (let k = fresh_key (table w1); saved = inst\<lparr>pk := Some k\<rparr>
                in (Inr (), saved,
                    w1\<lparr>table := table w1 @ [saved],
                       statements := statements w1 @ [INSERT_ROW k]\<rparr>))))"

text \<open>
  The framework's own \<open>Model.delete()\<close>: refuses an instance without a key;
  otherwise removes the row and clears the key of the instance.
\<close>

definition Model_delete ::
  "'a model_instance \<Rightarrow> 'a world \<Rightarrow> (exn + nat) \<times> 'a model_instance \<times> 'a world" where
  "Model_delete inst w =
     (case pk inst of
        None \<Rightarrow> (Inl (ValueError ''object can't be deleted because its pk is None''), inst, w)
      | Some k \<Rightarrow>
          (case db_call w of
             (Some e, w1) \<Rightarrow> (Inl e, inst, w1)
           | (None, w1) \<Rightarrow>
               (Inr (length (filter (\<lambda>r. pk r = Some k) (table w1))),
                inst\<lparr>pk := None\<rparr>,
                w1\<lparr>table := filter (\<lambda>r. pk r \<noteq> Some k) (table w1),
                   statements := statements w1 @
                     [DELETE_ROWS (stored_pks (filter (\<lambda>r. pk r = Some k) (table w1)))]\<rparr>)))"

section \<open>abstract\_soft\_delete.py\<close>

subsection \<open>class SoftDeleteQuerySet\<close>

text \<open>
  Lines 8 to 14. The assignment of line 10 happens only when the capture returned;
  either failure lands in the handler, which overwrites the attribute with the
  empty list and raises the exception it caught.
\<close>

definition SoftDeleteQuerySet_soft_delete ::
  "'a queryset \<Rightarrow> 'a world \<Rightarrow> (exn + unit) \<times> 'a queryset \<times> 'a world" where
  "SoftDeleteQuerySet_soft_delete self w =
     (case QuerySet_values_list_pk self w of
        (Inl e, w1) \<Rightarrow> (Inl e, self\<lparr>deleted_item_pks := Some []\<rparr>, w1)
      | (Inr ks, w1) \<Rightarrow>
          (let self1 = self\<lparr>deleted_item_pks := Some ks\<rparr>
           in case QuerySet_update self1 (Some (timezone_now w1)) w1 of
                (Inl e, w2) \<Rightarrow> (Inl e, self1\<lparr>deleted_item_pks := Some []\<rparr>, w2)
              | (Inr n, w2) \<Rightarrow> (Inr (), self1, w2)))"

subsection \<open>The managers\<close>

datatype manager = Manager | SoftDeleteManager | UserSoftDeleteManager

text \<open>Lines 28 to 32.\<close>

definition SoftDeleteManager_get_queryset :: "'a queryset" where
  "SoftDeleteManager_get_queryset =
     QuerySet_filter (deleted_at__isnull True) (new_queryset SoftDeleteQuerySet)"

text \<open>Lines 45 to 49.\<close>

definition UserSoftDeleteManager_get_queryset :: "'a queryset" where
  "UserSoftDeleteManager_get_queryset =
     QuerySet_filter (deleted_at__isnull True) (new_queryset SoftDeleteQuerySet)"

text \<open>The framework's plain manager builds a plain, unfiltered query set.\<close>

definition Manager_get_queryset :: "'a queryset" where
  "Manager_get_queryset = new_queryset QuerySet"

fun get_queryset :: "manager \<Rightarrow> 'a queryset" where
  "get_queryset Manager = Manager_get_queryset"
| "get_queryset SoftDeleteManager = SoftDeleteManager_get_queryset"
| "get_queryset UserSoftDeleteManager = UserSoftDeleteManager_get_queryset"

text \<open>\<open>manager.filter(...)\<close> is \<open>manager.get_queryset().filter(...)\<close>.\<close>

definition Manager_filter :: "manager \<Rightarrow> 'a lookup \<Rightarrow> 'a queryset" where
  "Manager_filter m l = QuerySet_filter l (get_queryset m)"

text \<open>Lines 60 and 61: the two managers of a model that uses the mixin.\<close>

definition objects :: manager where
  "objects = SoftDeleteManager"

definition all_objects :: manager where
  "all_objects = Manager"

subsection \<open>class SoftDeleteQuerySet, continued\<close>

text \<open>Lines 16 to 19. A failing update leaves the method before line 19.\<close>

definition SoftDeleteQuerySet_restore ::
  "manager \<Rightarrow> 'a queryset \<Rightarrow> 'a world \<Rightarrow> (exn + unit) \<times> 'a queryset \<times> 'a world" where
  "SoftDeleteQuerySet_restore use_manager self w =
     (case deleted_item_pks self of
        None \<Rightarrow> (Inr (), self, w)
      | Some ks \<Rightarrow>
          if ks = [] then (Inr (), self, w)
          else (case QuerySet_update (Manager_filter use_manager (pk__in ks)) None w of
                  (Inl e, w1) \<Rightarrow> (Inl e, self, w1)
                | (Inr n, w1) \<Rightarrow> (Inr (), self\<lparr>deleted_item_pks := Some []\<rparr>, w1)))"

text \<open>
  Lines 21 to 24. The result is \<open>Some n\<close> for the value of the framework's delete
  and \<open>None\<close> for Python's \<open>None\<close>, which the method returns after a soft delete.
\<close>

definition SoftDeleteQuerySet_delete ::
  "pyval \<Rightarrow> 'a queryset \<Rightarrow> 'a world \<Rightarrow> (exn + nat option) \<times> 'a queryset \<times> 'a world" where
  "SoftDeleteQuerySet_delete delete_permanently self w =
     (if py_eq delete_permanently (PyBool True)
      then (case QuerySet_delete self w of
              (Inl e, w1) \<Rightarrow> (Inl e, self, w1)
            | (Inr n, w1) \<Rightarrow> (Inr (Some n), self, w1))
      else (case SoftDeleteQuerySet_soft_delete self w of
              (Inl e, self1, w1) \<Rightarrow> (Inl e, self1, w1)
            | (Inr u, self1, w1) \<Rightarrow> (Inr None, self1, w1)))"

subsection \<open>class SoftDeleteModel\<close>

text \<open>Lines 63 to 65.\<close>

definition SoftDeleteModel_soft_delete ::
  "'a model_instance \<Rightarrow> 'a world \<Rightarrow> (exn + unit) \<times> 'a model_instance \<times> 'a world" where
  "SoftDeleteModel_soft_delete self w =
     Model_save (self\<lparr>deleted_at := Some (timezone_now w)\<rparr>) w"

text \<open>Lines 67 to 82.\<close>

definition SoftDeleteModel_delete ::
  "pyval \<Rightarrow> 'a model_instance \<Rightarrow> 'a world \<Rightarrow> (exn + nat option) \<times> 'a model_instance \<times> 'a world" where
  "SoftDeleteModel_delete delete_permanently self w =
     (if py_eq delete_permanently (PyBool True)
      then (case Model_delete self w of
              (Inl e, self1, w1) \<Rightarrow> (Inl e, self1, w1)
            | (Inr n, self1, w1) \<Rightarrow> (Inr (Some n), self1, w1))
      else (case SoftDeleteModel_soft_delete self w of
              (Inl e, self1, w1) \<Rightarrow> (Inl e, self1, w1)
            | (Inr u, self1, w1) \<Rightarrow> (Inr None, self1, w1)))"


subsection \<open>Calling a method on a query-set object\<close>

text \<open>
  Python looks a method up in the class of the object. A plain \<open>QuerySet\<close> has
  the framework's \<open>delete\<close>, which takes no argument, and neither \<open>soft_delete\<close>
  nor \<open>restore\<close>. The argument of \<open>call_delete\<close> is \<open>None\<close> for the call
  \<open>qs.delete()\<close>, where the override uses its default \<open>False\<close>.
\<close>

definition call_delete ::
  "pyval option \<Rightarrow> 'a queryset \<Rightarrow> 'a world \<Rightarrow> (exn + nat option) \<times> 'a queryset \<times> 'a world" where
  "call_delete arg self w =
     (case cls self of
        SoftDeleteQuerySet \<Rightarrow>
          SoftDeleteQuerySet_delete (case arg of None \<Rightarrow> PyBool False | Some v \<Rightarrow> v) self w
      | QuerySet \<Rightarrow>
          (case arg of
             Some v \<Rightarrow> (Inl (TypeError ''delete() got an unexpected argument''), self, w)
           | None \<Rightarrow>
               (case QuerySet_delete self w of
                  (Inl e, w1) \<Rightarrow> (Inl e, self, w1)
                | (Inr n, w1) \<Rightarrow> (Inr (Some n), self, w1))))"

definition call_soft_delete ::
  "'a queryset \<Rightarrow> 'a world \<Rightarrow> (exn + unit) \<times> 'a queryset \<times> 'a world" where
  "call_soft_delete self w =
     (case cls self of
        SoftDeleteQuerySet \<Rightarrow> SoftDeleteQuerySet_soft_delete self w
      | QuerySet \<Rightarrow>
          (Inl (AttributeError ''QuerySet object has no attribute soft_delete''), self, w))"

definition call_restore ::
  "manager \<Rightarrow> 'a queryset \<Rightarrow> 'a world \<Rightarrow> (exn + unit) \<times> 'a queryset \<times> 'a world" where
  "call_restore use_manager self w =
     (case cls self of
        SoftDeleteQuerySet \<Rightarrow> SoftDeleteQuerySet_restore use_manager self w
      | QuerySet \<Rightarrow>
          (Inl (AttributeError ''QuerySet object has no attribute restore''), self, w))"

text \<open>A chain of \<open>filter\<close> calls on a query set.\<close>

definition chain :: "'a lookup list \<Rightarrow> 'a queryset \<Rightarrow> 'a queryset" where
  "chain ls qs = fold QuerySet_filter ls qs"

section \<open>A sample database\<close>

text \<open>Three active records A, B and C, as in the scenario of the specification.\<close>

definition record_A :: "string model_instance" where
  "record_A = \<lparr>pk = Some 1, deleted_at = None, attrs = ''A''\<rparr>"

definition record_B :: "string model_instance" where
  "record_B = \<lparr>pk = Some 2, deleted_at = None, attrs = ''B''\<rparr>"

definition record_C :: "string model_instance" where
  "record_C = \<lparr>pk = Some 3, deleted_at = None, attrs = ''C''\<rparr>"

definition three_records :: "string world" where
  "three_records =
     \<lparr>table = [record_A, record_B, record_C], clock = 7, pending = [], statements = []\<rparr>"

text \<open>The same database when the next database call, or the one after it, fails.\<close>

definition failing_first :: "string world" where
  "failing_first = three_records\<lparr>pending := [Some (DatabaseError ''connection lost'')]\<rparr>"

definition failing_second :: "string world" where
  "failing_second =
     three_records\<lparr>pending := [None, Some (DatabaseError ''connection lost'')]\<rparr>"

text \<open>An instance that has never been saved.\<close>

definition record_D :: "string model_instance" where
  "record_D = \<lparr>pk = None, deleted_at = None, attrs = ''D''\<rparr>"

text \<open>
  The query set \<open>objects.all()\<close> after its \<open>soft_delete()\<close> on the sample
  database, and the same object after \<open>restore(all_objects)\<close>.
\<close>

definition soft_deleted :: "(exn + unit) \<times> string queryset \<times> string world" where
  "soft_deleted = SoftDeleteQuerySet_soft_delete (get_queryset objects) three_records"

definition restored :: "(exn + unit) \<times> string queryset \<times> string world" where
  "restored =
     SoftDeleteQuerySet_restore all_objects (fst (snd soft_deleted)) (snd (snd soft_deleted))"

section \<open>Evaluation rules and basic facts\<close>

lemmas sample_defs = record_A_def record_B_def record_C_def record_D_def three_records_def
  failing_first_def failing_second_def

lemmas framework_defs = db_call_def QuerySet_values_list_pk_def QuerySet_update_def
  QuerySet_delete_def Model_save_def Model_delete_def timezone_now_def results_def
  matches_def stored_pks_def QuerySet_filter_def new_queryset_def fresh_key_def
  QuerySet_count_def Let_def

lemmas manager_defs = SoftDeleteManager_get_queryset_def UserSoftDeleteManager_get_queryset_def
  Manager_get_queryset_def Manager_filter_def objects_def all_objects_def

lemma py_eq_True_iff: "py_eq v (PyBool True) \<longleftrightarrow> v = PyBool True \<or> v = PyInt 1"
  by (cases v) (auto simp: py_eq_def)

lemma db_call_cases:
  "db_call w = (f, w1) \<Longrightarrow>
     table w1 = table w \<and> clock w1 = clock w \<and> statements w1 = statements w"
  by (auto simp: db_call_def split: list.splits)

lemma db_call_no_failure: "pending w = [] \<Longrightarrow> db_call w = (None, w)"
  by (simp add: db_call_def)

lemma matches_cache [simp]: "matches (qs\<lparr>deleted_item_pks := c\<rparr>) = matches qs"
  by (simp add: matches_def fun_eq_iff)

lemma results_cache [simp]: "results (qs\<lparr>deleted_item_pks := c\<rparr>) w = results qs w"
  by (simp add: results_def)

lemma values_list_pk_Inr:
  assumes "QuerySet_values_list_pk qs w = (Inr ks, w1)"
  shows "ks = stored_pks (results qs w) \<and> table w1 = table w \<and> clock w1 = clock w \<and>
         statements w1 = statements w @ [SELECT_PKS (stored_pks (results qs w))]"
  using assms
  by (auto simp: QuerySet_values_list_pk_def results_def Let_def
      split: prod.splits option.splits dest: db_call_cases)

lemma update_Inr:
  assumes "QuerySet_update qs v w = (Inr n, w1)"
  shows "n = length (results qs w) \<and>
         table w1 = map (\<lambda>r. if matches qs r then r\<lparr>deleted_at := v\<rparr> else r) (table w) \<and>
         clock w1 = clock w \<and>
         statements w1 = statements w @ [UPDATE_DELETED_AT (stored_pks (results qs w)) v]"
  using assms
  by (auto simp: QuerySet_update_def results_def
      split: prod.splits option.splits dest: db_call_cases)

lemma delete_Inr:
  assumes "QuerySet_delete qs w = (Inr n, w1)"
  shows "n = length (results qs w) \<and>
         table w1 = filter (\<lambda>r. \<not> matches qs r) (table w) \<and>
         clock w1 = clock w \<and>
         statements w1 = statements w @ [DELETE_ROWS (stored_pks (results qs w))]"
  using assms
  by (auto simp: QuerySet_delete_def results_def
      split: prod.splits option.splits dest: db_call_cases)

subsection \<open>Chains of filters and the managers\<close>

lemma lookups_chain: "lookups (chain ls qs) = lookups qs @ ls"
  unfolding chain_def by (induction ls arbitrary: qs) (simp_all add: QuerySet_filter_def)

lemma cls_chain: "cls (chain ls qs) = cls qs"
  unfolding chain_def by (induction ls arbitrary: qs) (simp_all add: QuerySet_filter_def)

lemma matches_chain: "matches (chain ls qs) r \<longleftrightarrow> matches qs r \<and> list_all (\<lambda>l. holds l r) ls"
  by (simp add: matches_def lookups_chain)

lemma matches_filter: "matches (QuerySet_filter l qs) r \<longleftrightarrow> matches qs r \<and> holds l r"
  by (simp add: matches_def QuerySet_filter_def)

lemma matches_managers:
  "matches Manager_get_queryset r"
  "matches SoftDeleteManager_get_queryset r \<longleftrightarrow> deleted_at r = None"
  "matches UserSoftDeleteManager_get_queryset r \<longleftrightarrow> deleted_at r = None"
  by (simp_all add: matches_def manager_defs QuerySet_filter_def new_queryset_def)


lemma set_stored_pks: "k \<in> set (stored_pks rows) \<longleftrightarrow> (\<exists>r \<in> set rows. pk r = Some k)"
  by (induction rows) (auto simp: stored_pks_def split: option.splits)

lemma fold_max_upper: "(x::nat) \<in> set xs \<Longrightarrow> x \<le> fold max xs a"
proof (induction xs arbitrary: a)
  case Nil
  then show ?case by simp
next
  case (Cons y ys)
  have mono: "b \<le> fold max ys b" for b :: nat
    by (induction ys arbitrary: b) (auto intro: order_trans [OF max.cobounded2])
  show ?case
  proof (cases "x = y")
    case True
    then show ?thesis
      using mono [of "max y a"] by simp
  next
    case False
    with Cons show ?thesis by simp
  qed
qed

lemma fresh_key_new: "fresh_key rows \<notin> set (stored_pks rows)"
  using fold_max_upper [of "fresh_key rows" "stored_pks rows" 0]
  by (auto simp: fresh_key_def)

subsection \<open>Saving and deleting an instance\<close>

lemma Model_save_Inr:
  assumes "Model_save x w = (Inr u, x', w')"
  shows "deleted_at x' = deleted_at x \<and> attrs x' = attrs x \<and> x' \<in> set (table w') \<and>
         pk x' \<noteq> None \<and> (\<forall>r \<in> set (table w'). pk r = pk x' \<longrightarrow> r = x')"
proof -
  obtain f w1 where call: "db_call w = (f, w1)"
    by (cases "db_call w")
  note same = db_call_cases [OF call]
  from assms call have f: "f = None"
    by (auto simp: Model_save_def Let_def split: option.splits)
  show ?thesis
  proof (cases "pk x")
    case None
    with assms call f have
      x': "x' = x\<lparr>pk := Some (fresh_key (table w1))\<rparr>" and
      t: "table w' = table w1 @ [x']"
      by (auto simp: Model_save_def Let_def)
    have "\<forall>r \<in> set (table w1). pk r \<noteq> Some (fresh_key (table w1))"
      using fresh_key_new [of "table w1"] by (auto simp: set_stored_pks)
    with x' t show ?thesis by auto
  next
    case (Some k)
    show ?thesis
    proof (cases "k \<in> set (stored_pks (table w1))")
      case True
      with assms call f Some have
        x': "x' = x" and
        t: "table w' = map (\<lambda>r. if pk r = Some k then x else r) (table w1)"
        by (auto simp: Model_save_def Let_def)
      from True obtain r where "r \<in> set (table w1)" "pk r = Some k"
        by (auto simp: set_stored_pks)
      then have "x \<in> set (table w')"
        unfolding t by (auto simp: image_iff intro!: bexI [of _ r])
      with x' t Some show ?thesis by auto
    next
      case False
      with assms call f Some have
        x': "x' = x" and
        t: "table w' = table w1 @ [x]"
        by (auto simp: Model_save_def Let_def)
      from False have "\<forall>r \<in> set (table w1). pk r \<noteq> Some k"
        by (auto simp: set_stored_pks)
      with x' t Some show ?thesis by auto
    qed
  qed
qed


subsection \<open>The outcome of the query-set methods\<close>

lemma soft_delete_Inr:
  assumes "SoftDeleteQuerySet_soft_delete self w = (Inr u, self', w')"
  shows "self' = self\<lparr>deleted_item_pks := Some (stored_pks (results self w))\<rparr> \<and>
         table w' =
           map (\<lambda>r. if matches self r then r\<lparr>deleted_at := Some (timezone_now w)\<rparr> else r)
             (table w) \<and>
         statements w' = statements w @
           [SELECT_PKS (stored_pks (results self w)),
            UPDATE_DELETED_AT (stored_pks (results self w)) (Some (timezone_now w))]"
proof -
  from assms obtain ks w1 n where
    sel: "QuerySet_values_list_pk self w = (Inr ks, w1)" and
    upd: "QuerySet_update (self\<lparr>deleted_item_pks := Some ks\<rparr>) (Some (timezone_now w1)) w1
            = (Inr n, w')" and
    self': "self' = self\<lparr>deleted_item_pks := Some ks\<rparr>"
    by (auto simp: SoftDeleteQuerySet_soft_delete_def Let_def split: prod.splits sum.splits)
  note s = values_list_pk_Inr [OF sel]
  note u = update_Inr [OF upd]
  have r: "results self w1 = results self w"
    using s by (simp add: results_def)
  show ?thesis
    using s u self' r by (simp add: timezone_now_def)
qed

lemma soft_delete_succeeds:
  assumes "pending w = []"
  shows "\<exists>self' w'. SoftDeleteQuerySet_soft_delete self w = (Inr (), self', w') \<and> pending w' = []"
  using assms
  by (simp add: SoftDeleteQuerySet_soft_delete_def QuerySet_values_list_pk_def
      QuerySet_update_def db_call_def Let_def)

lemma restore_succeeds:
  assumes "pending w = []"
  shows "\<exists>self' w'. SoftDeleteQuerySet_restore m self w = (Inr (), self', w') \<and> pending w' = []"
  using assms
  by (simp add: SoftDeleteQuerySet_restore_def QuerySet_update_def db_call_def
      split: option.splits)

lemma restore_Inr:
  assumes "deleted_item_pks self = Some ks" and "ks \<noteq> []"
    and "SoftDeleteQuerySet_restore m self w = (Inr u, self', w')"
  shows "self' = self\<lparr>deleted_item_pks := Some []\<rparr> \<and>
         table w' =
           map (\<lambda>r. if matches (get_queryset m) r \<and> holds (pk__in ks) r
                    then r\<lparr>deleted_at := None\<rparr> else r) (table w) \<and>
         statements w' = statements w @
           [UPDATE_DELETED_AT (stored_pks (results (Manager_filter m (pk__in ks)) w)) None]"
proof -
  from assms obtain n where
    upd: "QuerySet_update (Manager_filter m (pk__in ks)) None w = (Inr n, w')" and
    self': "self' = self\<lparr>deleted_item_pks := Some []\<rparr>"
    by (auto simp: SoftDeleteQuerySet_restore_def split: prod.splits sum.splits)
  from update_Inr [OF upd] self' show ?thesis
    by (simp add: Manager_filter_def matches_filter)
qed

lemma restore_nothing:
  assumes "deleted_item_pks self = None \<or> deleted_item_pks self = Some []"
  shows "SoftDeleteQuerySet_restore m self w = (Inr (), self, w)"
  using assms by (auto simp: SoftDeleteQuerySet_restore_def)

lemma stored_pks_empty:
  assumes "list_all (\<lambda>r. pk r \<noteq> None) rows" and "stored_pks rows = []"
  shows "rows = []"
  using assms by (cases rows) (auto simp: stored_pks_def split: option.splits)

subsection \<open>The soft path of the two delete methods\<close>

lemma Model_save_result:
  assumes "Model_save x w = (Inr u, x', w')"
  shows "x' = x\<lparr>pk := Some (case pk x of None \<Rightarrow> fresh_key (table w) | Some k \<Rightarrow> k)\<rparr> \<and>
         filter (\<lambda>r. pk r \<noteq> pk x') (table w') = filter (\<lambda>r. pk r \<noteq> pk x') (table w)"
proof -
  obtain f w1 where call: "db_call w = (f, w1)"
    by (cases "db_call w")
  note same = db_call_cases [OF call]
  from assms call have f: "f = None"
    by (auto simp: Model_save_def Let_def split: option.splits)
  show ?thesis
  proof (cases "pk x")
    case None
    with assms call f have
      x': "x' = x\<lparr>pk := Some (fresh_key (table w1))\<rparr>" and
      t: "table w' = table w1 @ [x']"
      by (auto simp: Model_save_def Let_def)
    from x' t None same show ?thesis by simp
  next
    case (Some k)
    have keep: "x\<lparr>pk := Some k\<rparr> = x"
      using Some by simp
    show ?thesis
    proof (cases "k \<in> set (stored_pks (table w1))")
      case True
      with assms call f Some have
        x': "x' = x" and
        t: "table w' = map (\<lambda>r. if pk r = Some k then x else r) (table w1)"
        by (auto simp: Model_save_def Let_def)
      have "filter (\<lambda>r. pk r \<noteq> Some k) (map (\<lambda>r. if pk r = Some k then x else r) rows) =
            filter (\<lambda>r. pk r \<noteq> Some k) rows" for rows :: "'a model_instance list"
        using Some by (induction rows) auto
      with x' t Some same keep show ?thesis by simp
    next
      case False
      with assms call f Some have
        x': "x' = x" and
        t: "table w' = table w1 @ [x]"
        by (auto simp: Model_save_def Let_def)
      from x' t Some same keep show ?thesis by simp
    qed
  qed
qed

lemma Model_save_succeeds:
  assumes "pending w = []"
  shows "fst (Model_save x w) = Inr ()"
  using assms by (simp add: Model_save_def db_call_def Let_def split: option.splits)

lemma model_delete_soft_Inr:
  assumes "\<not> py_eq flag (PyBool True)"
    and "SoftDeleteModel_delete flag inst w = (Inr v, inst', w')"
  shows "v = None \<and>
         Model_save (inst\<lparr>deleted_at := Some (timezone_now w)\<rparr>) w = (Inr (), inst', w')"
  using assms
  by (auto simp: SoftDeleteModel_delete_def SoftDeleteModel_soft_delete_def
      split: prod.splits sum.splits)

lemma model_delete_soft_succeeds:
  assumes "\<not> py_eq flag (PyBool True)" and "pending w = []"
  shows "fst (SoftDeleteModel_delete flag inst w) = Inr None"
  using assms Model_save_succeeds [OF assms(2), of "inst\<lparr>deleted_at := Some (timezone_now w)\<rparr>"]
  by (auto simp: SoftDeleteModel_delete_def SoftDeleteModel_soft_delete_def
      split: prod.splits sum.splits)

lemma queryset_delete_soft_Inr:
  assumes "\<not> py_eq flag (PyBool True)"
    and "SoftDeleteQuerySet_delete flag qs w = (Inr v, qs', w')"
  shows "v = None \<and> SoftDeleteQuerySet_soft_delete qs w = (Inr (), qs', w')"
  using assms
  by (auto simp: SoftDeleteQuerySet_delete_def split: prod.splits sum.splits)

lemma queryset_delete_soft_succeeds:
  assumes "\<not> py_eq flag (PyBool True)" and "pending w = []"
  shows "fst (SoftDeleteQuerySet_delete flag qs w) = Inr None"
  using assms soft_delete_succeeds [OF assms(2), of qs]
  by (auto simp: SoftDeleteQuerySet_delete_def split: prod.splits sum.splits)

lemma active_after_bulk_update:
  assumes t: "table w' = map (\<lambda>r. if matches qs r then r\<lparr>deleted_at := Some t\<rparr> else r) (table w)"
    and q: "\<And>r. matches q r \<longleftrightarrow> deleted_at r = None"
  shows "results (chain ls q) w' =
         filter (\<lambda>r. list_all (\<lambda>l. holds l r) ls)
           (filter (\<lambda>r. deleted_at r = None \<and> \<not> matches qs r) (table w))"
proof -
  have "filter (matches (chain ls q))
          (map (\<lambda>r. if matches qs r then r\<lparr>deleted_at := Some t\<rparr> else r) rows) =
        filter (\<lambda>r. list_all (\<lambda>l. holds l r) ls)
          (filter (\<lambda>r. deleted_at r = None \<and> \<not> matches qs r) rows)"
    for rows :: "'a model_instance list"
    by (induction rows) (auto simp: matches_chain q)
  then show ?thesis
    by (simp add: results_def t)
qed



subsection \<open>The sample run\<close>

lemma soft_deleted_eq:
  "soft_deleted =
     (Inr (),
      \<lparr>cls = SoftDeleteQuerySet, lookups = [deleted_at__isnull True],
         deleted_item_pks = Some [1, 2, 3]\<rparr>,
      \<lparr>table = [record_A\<lparr>deleted_at := Some 7\<rparr>, record_B\<lparr>deleted_at := Some 7\<rparr>,
                record_C\<lparr>deleted_at := Some 7\<rparr>],
         clock = 7, pending = [],
         statements = [SELECT_PKS [1, 2, 3], UPDATE_DELETED_AT [1, 2, 3] (Some 7)]\<rparr>)"
  by (simp add: soft_deleted_def SoftDeleteQuerySet_soft_delete_def sample_defs
      framework_defs manager_defs)

lemma restored_eq:
  "restored =
     (Inr (),
      \<lparr>cls = SoftDeleteQuerySet, lookups = [deleted_at__isnull True],
         deleted_item_pks = Some []\<rparr>,
      \<lparr>table = [record_A, record_B, record_C],
         clock = 7, pending = [],
         statements = [SELECT_PKS [1, 2, 3], UPDATE_DELETED_AT [1, 2, 3] (Some 7),
                       UPDATE_DELETED_AT [1, 2, 3] None]\<rparr>)"
  by (simp add: restored_def soft_deleted_eq SoftDeleteQuerySet_restore_def sample_defs
      framework_defs manager_defs)

section \<open>The strict check of the flag\<close>

text \<open>
  Only the boolean \<open>True\<close> and, because \<open>1 == True\<close> holds in Python, the integer 1
  pass the test of lines 22 and 80; every other value, truthy or not, leads to the
  soft delete.
\<close>

lemma queryset_delete_soft_path:
  "\<not> py_eq v (PyBool True) \<Longrightarrow>
     fst (SoftDeleteQuerySet_delete v self w) =
       map_sum id (\<lambda>u. None) (fst (SoftDeleteQuerySet_soft_delete self w)) \<and>
     snd (SoftDeleteQuerySet_delete v self w) = snd (SoftDeleteQuerySet_soft_delete self w)"
  by (auto simp: SoftDeleteQuerySet_delete_def split: prod.splits sum.splits)

lemma model_delete_soft_path:
  "\<not> py_eq v (PyBool True) \<Longrightarrow>
     fst (SoftDeleteModel_delete v self w) =
       map_sum id (\<lambda>u. None) (fst (SoftDeleteModel_soft_delete self w)) \<and>
     snd (SoftDeleteModel_delete v self w) = snd (SoftDeleteModel_soft_delete self w)"
  by (auto simp: SoftDeleteModel_delete_def split: prod.splits sum.splits)

lemma nonempty_string_is_soft:
  "s \<noteq> [] \<Longrightarrow> truthy (PyStr s) \<and> \<not> py_eq (PyStr s) (PyBool True)"
  by (simp add: py_eq_def)

text \<open>
  C1 (the code departs from the claim). The claim says that every truthy value
  other than the boolean \<open>True\<close>, the integer 1 included, leads to a soft delete.
  The integer 1 is truthy and is not the boolean \<open>True\<close>, yet with it both
  \<open>delete\<close> methods take the permanent path: on the sample database the query set
  removes all three rows and the instance removes its row.
\<close>

theorem delete_with_int_one_is_permanent:
  "truthy (PyInt 1) \<and> PyInt 1 \<noteq> PyBool True \<and>
   SoftDeleteQuerySet_delete (PyInt 1) (get_queryset objects) three_records =
     (Inr (Some 3), get_queryset objects,
      three_records\<lparr>table := [], statements := [DELETE_ROWS [1, 2, 3]]\<rparr>) \<and>
   SoftDeleteModel_delete (PyInt 1) record_B three_records =
     (Inr (Some 1), record_B\<lparr>pk := None\<rparr>,
      three_records\<lparr>table := [record_A, record_C], statements := [DELETE_ROWS [2]]\<rparr>)"
  by (simp add: SoftDeleteQuerySet_delete_def SoftDeleteModel_delete_def py_eq_def
      sample_defs framework_defs manager_defs)

section \<open>Query-set soft delete\<close>

text \<open>
  C2. Whenever \<open>soft_delete()\<close> of a query set returns, the object carries the keys
  of the rows it matched at the call, the table differs from the one at the call
  exactly in that every matched row has \<open>deleted_at\<close> set to the current time, and
  the database saw two statements: the SELECT of those keys, then one UPDATE.
\<close>

theorem soft_delete_captures_then_updates:
  assumes "SoftDeleteQuerySet_soft_delete self w = (Inr u, self', w')"
  shows "self' = self\<lparr>deleted_item_pks := Some (stored_pks (results self w))\<rparr> \<and>
         table w' =
           map (\<lambda>r. if matches self r then r\<lparr>deleted_at := Some (timezone_now w)\<rparr> else r)
             (table w) \<and>
         statements w' = statements w @
           [SELECT_PKS (stored_pks (results self w)),
            UPDATE_DELETED_AT (stored_pks (results self w)) (Some (timezone_now w))]"
  using assms by (rule soft_delete_Inr)

theorem soft_delete_captures_then_updates_witness:
  "deleted_item_pks (fst (snd soft_deleted)) = Some [1, 2, 3] \<and>
   map deleted_at (table (snd (snd soft_deleted))) = [Some 7, Some 7, Some 7] \<and>
   statements (snd (snd soft_deleted)) =
     [SELECT_PKS [1, 2, 3], UPDATE_DELETED_AT [1, 2, 3] (Some 7)]"
proof -
  have run: "SoftDeleteQuerySet_soft_delete (get_queryset objects) three_records =
               (Inr (), fst (snd soft_deleted), snd (snd soft_deleted))"
    by (simp add: soft_deleted_eq) (simp add: soft_deleted_eq [unfolded soft_deleted_def])
  from soft_delete_captures_then_updates [OF run] show ?thesis
    by (simp add: sample_defs framework_defs manager_defs)
qed

text \<open>
  C3. If the capture raises, or the capture returns and the update raises, then
  \<open>soft_delete()\<close> ends with that same exception and with the key cache of the
  object set to the empty list; and an exception that leaves \<open>soft_delete()\<close> is
  always one of these two, with the cache emptied.
\<close>

theorem soft_delete_failure_resets_cache:
  "(QuerySet_values_list_pk self w = (Inl e, w1) \<longrightarrow>
      SoftDeleteQuerySet_soft_delete self w =
        (Inl e, self\<lparr>deleted_item_pks := Some []\<rparr>, w1)) \<and>
   (QuerySet_values_list_pk self w = (Inr ks, w1) \<and>
    QuerySet_update (self\<lparr>deleted_item_pks := Some ks\<rparr>) (Some (timezone_now w1)) w1
      = (Inl e, w2) \<longrightarrow>
      SoftDeleteQuerySet_soft_delete self w =
        (Inl e, self\<lparr>deleted_item_pks := Some []\<rparr>, w2)) \<and>
   (SoftDeleteQuerySet_soft_delete self w = (Inl e, self', w') \<longrightarrow>
      self' = self\<lparr>deleted_item_pks := Some []\<rparr> \<and>
      (QuerySet_values_list_pk self w = (Inl e, w') \<or>
       (\<exists>ks w1. QuerySet_values_list_pk self w = (Inr ks, w1) \<and>
          QuerySet_update (self\<lparr>deleted_item_pks := Some ks\<rparr>) (Some (timezone_now w1)) w1
            = (Inl e, w'))))"
  by (auto simp: SoftDeleteQuerySet_soft_delete_def Let_def split: prod.splits sum.splits)

theorem soft_delete_failure_resets_cache_witness:
  "SoftDeleteQuerySet_soft_delete (get_queryset objects) failing_first =
     (Inl (DatabaseError ''connection lost''),
      (get_queryset objects)\<lparr>deleted_item_pks := Some []\<rparr>,
      three_records) \<and>
   SoftDeleteQuerySet_soft_delete (get_queryset objects) failing_second =
     (Inl (DatabaseError ''connection lost''),
      (get_queryset objects)\<lparr>deleted_item_pks := Some []\<rparr>,
      three_records\<lparr>statements := [SELECT_PKS [1, 2, 3]]\<rparr>)"
proof -
  let ?qs = "get_queryset objects :: string queryset"
  let ?e = "DatabaseError ''connection lost''"
  let ?w1 = "three_records\<lparr>pending := [Some ?e], statements := [SELECT_PKS [1, 2, 3]]\<rparr>"
  have capture_fails: "QuerySet_values_list_pk ?qs failing_first = (Inl ?e, three_records)"
    by (simp add: sample_defs framework_defs manager_defs)
  have capture_returns: "QuerySet_values_list_pk ?qs failing_second = (Inr [1, 2, 3], ?w1)"
    by (simp add: sample_defs framework_defs manager_defs)
  have update_fails:
    "QuerySet_update (?qs\<lparr>deleted_item_pks := Some [1, 2, 3]\<rparr>) (Some (timezone_now ?w1)) ?w1 =
       (Inl ?e, three_records\<lparr>statements := [SELECT_PKS [1, 2, 3]]\<rparr>)"
    by (simp add: sample_defs framework_defs manager_defs)
  note first = soft_delete_failure_resets_cache
    [THEN conjunct1, rule_format, OF capture_fails]
  note second = soft_delete_failure_resets_cache
    [THEN conjunct2, THEN conjunct1, rule_format, OF conjI [OF capture_returns update_fails]]
  note third = soft_delete_failure_resets_cache
    [THEN conjunct2, THEN conjunct2, rule_format, OF second]
  from first second third show ?thesis
    by simp
qed

section \<open>Query-set restore\<close>

text \<open>
  C8. After a \<open>soft_delete()\<close> and one \<open>restore(use_manager)\<close> that returned, the key
  cache of the object is the empty list, and a further \<open>restore\<close> on the same object,
  whatever manager it is given, returns without an error and leaves the object and
  the world as they are: no statement is sent and no row changes.
\<close>

theorem restore_twice_is_noop:
  assumes "SoftDeleteQuerySet_soft_delete self w = (r0, self1, w1)"
    and "SoftDeleteQuerySet_restore m self1 w1 = (Inr u, self2, w2)"
  shows "deleted_item_pks self2 = Some [] \<and>
         SoftDeleteQuerySet_restore m' self2 w2 = (Inr (), self2, w2)"
proof -
  have "\<exists>ks. deleted_item_pks self1 = Some ks"
    using assms(1)
    by (auto simp: SoftDeleteQuerySet_soft_delete_def Let_def split: prod.splits sum.splits)
  then have "deleted_item_pks self2 = Some []"
    using assms(2)
    by (auto simp: SoftDeleteQuerySet_restore_def split: prod.splits sum.splits if_splits)
  then show ?thesis
    by (simp add: SoftDeleteQuerySet_restore_def)
qed

theorem restore_twice_is_noop_witness:
  "deleted_item_pks (fst (snd restored)) = Some [] \<and>
   SoftDeleteQuerySet_restore all_objects (fst (snd restored)) (snd (snd restored)) =
     (Inr (), fst (snd restored), snd (snd restored)) \<and>
   statements (snd (snd restored)) =
     [SELECT_PKS [1, 2, 3], UPDATE_DELETED_AT [1, 2, 3] (Some 7),
      UPDATE_DELETED_AT [1, 2, 3] None]"
proof -
  have first: "SoftDeleteQuerySet_soft_delete (get_queryset objects) three_records =
                 (fst soft_deleted, fst (snd soft_deleted), snd (snd soft_deleted))"
    by (simp add: soft_deleted_def)
  have second: "SoftDeleteQuerySet_restore all_objects (fst (snd soft_deleted))
                  (snd (snd soft_deleted)) =
                  (Inr (), fst (snd restored), snd (snd restored))"
    by (simp add: restored_def [symmetric]) (simp add: restored_eq)
  from restore_twice_is_noop [OF first second, of all_objects] show ?thesis
    by (simp add: restored_eq)
qed

text \<open>
  C4 as the claim states it fails when the manager handed to \<open>restore\<close> is the
  filtered manager \<open>objects\<close>: the query set carries the keys 1, 2 and 3 from its
  \<open>soft_delete()\<close>, the update goes through \<open>objects\<close>, whose query set no longer
  returns the three rows, so it reaches no row; the rows keep their \<open>deleted_at\<close>
  and the key cache is emptied all the same.
\<close>

theorem restore_through_objects_reaches_no_row:
  "deleted_item_pks (fst (snd soft_deleted)) = Some [1, 2, 3] \<and>
   SoftDeleteQuerySet_restore objects (fst (snd soft_deleted)) (snd (snd soft_deleted)) =
     (Inr (),
      (fst (snd soft_deleted))\<lparr>deleted_item_pks := Some []\<rparr>,
      (snd (snd soft_deleted))
        \<lparr>statements := [SELECT_PKS [1, 2, 3], UPDATE_DELETED_AT [1, 2, 3] (Some 7),
                        UPDATE_DELETED_AT [] None]\<rparr>) \<and>
   map deleted_at (table (snd (snd soft_deleted))) = [Some 7, Some 7, Some 7]"
  by (simp add: soft_deleted_eq SoftDeleteQuerySet_restore_def sample_defs
      framework_defs manager_defs)

text \<open>
  C4, amended. With a non-empty captured key list, a \<open>restore(use_manager)\<close> that
  returns has sent one UPDATE: \<open>deleted_at\<close> is null on exactly the rows that the
  query set of \<open>use_manager\<close> returns and whose key is in the list, every other row is
  as before, and the captured list is empty afterwards. For the unfiltered manager
  \<open>all_objects\<close> these rows are all stored rows with a key in the list. Without the
  attribute, or with the empty list, \<open>restore\<close> changes nothing and raises nothing.
\<close>

theorem restore_updates_rows_of_manager:
  "(deleted_item_pks self = Some ks \<and> ks \<noteq> [] \<and>
    SoftDeleteQuerySet_restore m self w = (Inr u, self', w') \<longrightarrow>
      self' = self\<lparr>deleted_item_pks := Some []\<rparr> \<and>
      table w' =
        map (\<lambda>r. if matches (get_queryset m) r \<and> holds (pk__in ks) r
                 then r\<lparr>deleted_at := None\<rparr> else r) (table w) \<and>
      statements w' = statements w @
        [UPDATE_DELETED_AT (stored_pks (results (Manager_filter m (pk__in ks)) w)) None]) \<and>
   (deleted_item_pks self = Some ks \<and> ks \<noteq> [] \<and>
    SoftDeleteQuerySet_restore all_objects self w = (Inr u, self', w') \<longrightarrow>
      table w' =
        map (\<lambda>r. if holds (pk__in ks) r then r\<lparr>deleted_at := None\<rparr> else r) (table w)) \<and>
   (deleted_item_pks self = None \<or> deleted_item_pks self = Some [] \<longrightarrow>
      SoftDeleteQuerySet_restore m self w = (Inr (), self, w))"
proof (intro conjI impI)
  assume "deleted_item_pks self = Some ks \<and> ks \<noteq> [] \<and>
    SoftDeleteQuerySet_restore m self w = (Inr u, self', w')"
  then have a: "deleted_item_pks self = Some ks" "ks \<noteq> []"
    "SoftDeleteQuerySet_restore m self w = (Inr u, self', w')"
    by simp_all
  note r = restore_Inr [OF a]
  from r show "self' = self\<lparr>deleted_item_pks := Some []\<rparr>"
    by (rule conjunct1)
  from r show "table w' =
        map (\<lambda>r. if matches (get_queryset m) r \<and> holds (pk__in ks) r
                 then r\<lparr>deleted_at := None\<rparr> else r) (table w)"
    by (rule conjunct2 [THEN conjunct1])
  from r show "statements w' = statements w @
        [UPDATE_DELETED_AT (stored_pks (results (Manager_filter m (pk__in ks)) w)) None]"
    by (rule conjunct2 [THEN conjunct2])
next
  assume "deleted_item_pks self = Some ks \<and> ks \<noteq> [] \<and>
    SoftDeleteQuerySet_restore all_objects self w = (Inr u, self', w')"
  then have a: "deleted_item_pks self = Some ks" "ks \<noteq> []"
    "SoftDeleteQuerySet_restore all_objects self w = (Inr u, self', w')"
    by simp_all
  from restore_Inr [OF a]
  show "table w' =
        map (\<lambda>r. if holds (pk__in ks) r then r\<lparr>deleted_at := None\<rparr> else r) (table w)"
    by (simp add: all_objects_def matches_managers)
next
  assume "deleted_item_pks self = None \<or> deleted_item_pks self = Some []"
  then show "SoftDeleteQuerySet_restore m self w = (Inr (), self, w)"
    by (rule restore_nothing)
qed

theorem restore_updates_rows_of_manager_witness:
  "fst (snd restored) = (fst (snd soft_deleted))\<lparr>deleted_item_pks := Some []\<rparr> \<and>
   table (snd (snd restored)) = [record_A, record_B, record_C] \<and>
   statements (snd (snd restored)) =
     [SELECT_PKS [1, 2, 3], UPDATE_DELETED_AT [1, 2, 3] (Some 7),
      UPDATE_DELETED_AT [1, 2, 3] None] \<and>
   SoftDeleteQuerySet_restore all_objects (get_queryset objects) (snd (snd soft_deleted)) =
     (Inr (), get_queryset objects, snd (snd soft_deleted))"
proof -
  let ?qs = "fst (snd soft_deleted)"
  let ?w = "snd (snd soft_deleted)"
  let ?fresh = "get_queryset objects :: string queryset"
  have cache: "deleted_item_pks ?qs = Some [1, 2, 3]"
    by (simp add: soft_deleted_eq)
  have run: "SoftDeleteQuerySet_restore all_objects ?qs ?w =
               (Inr (), fst (snd restored), snd (snd restored))"
    by (simp add: restored_def [symmetric]) (simp add: restored_eq)
  have hyp: "deleted_item_pks ?qs = Some [1, 2, 3] \<and> [1, 2, 3] \<noteq> ([] :: pkey list) \<and>
             SoftDeleteQuerySet_restore all_objects ?qs ?w =
               (Inr (), fst (snd restored), snd (snd restored))"
    using cache run by simp
  have none: "deleted_item_pks ?fresh = None \<or> deleted_item_pks ?fresh = Some []"
    by (simp add: manager_defs QuerySet_filter_def)
  note through_manager = restore_updates_rows_of_manager
    [THEN conjunct1, rule_format, OF hyp]
  note unfiltered = restore_updates_rows_of_manager
    [THEN conjunct2, THEN conjunct1, rule_format, OF hyp]
  note no_keys = restore_updates_rows_of_manager
    [THEN conjunct2, THEN conjunct2, rule_format, OF none, of all_objects ?w]
  have cache': "fst (snd restored) = ?qs\<lparr>deleted_item_pks := Some []\<rparr>"
    using through_manager by (rule conjunct1)
  have rows: "table (snd (snd restored)) = [record_A, record_B, record_C]"
    using unfiltered by (simp add: soft_deleted_eq sample_defs)
  have sent: "statements (snd (snd restored)) =
     [SELECT_PKS [1, 2, 3], UPDATE_DELETED_AT [1, 2, 3] (Some 7),
      UPDATE_DELETED_AT [1, 2, 3] None]"
    using through_manager
    by (simp add: soft_deleted_eq sample_defs framework_defs manager_defs)
  from cache' rows sent no_keys show ?thesis
    by (intro conjI)
qed

section \<open>Permanent delete\<close>



section \<open>Visibility through the managers\<close>

text \<open>
  C6. A stored record is returned by \<open>objects\<close>, and by the user-model manager,
  exactly when its \<open>deleted_at\<close> is null, and \<open>all_objects\<close> returns every stored
  record; nothing else decides it. A \<open>delete\<close> whose flag does not pass the test for
  \<open>True\<close> is the soft delete, and it returns whenever no database call fails.
  When the instance method has returned, the instance is the one that was passed,
  with its key (a new one if it had none) and with \<open>deleted_at\<close> set to the time of
  the call; it is stored and returned by \<open>all_objects\<close>, every stored row with its
  key is that record, the rows with other keys are as before, and no query set
  chained from \<open>objects\<close> or from the user-model manager returns a record with its
  key. When the query-set method has returned, the table is the old one with
  \<open>deleted_at\<close> set on exactly the matched rows, so every matched row is still
  returned by \<open>all_objects\<close>, and a query set chained from either filtered manager
  returns exactly the rows that were active and not matched.
\<close>

theorem soft_deleted_hidden_from_objects:
  "(r \<in> set (results (get_queryset objects) w) \<longleftrightarrow>
      r \<in> set (table w) \<and> deleted_at r = None) \<and>
   (r \<in> set (results (get_queryset UserSoftDeleteManager) w) \<longleftrightarrow>
      r \<in> set (table w) \<and> deleted_at r = None) \<and>
   results (get_queryset all_objects) w = table w \<and>
   (\<not> py_eq flag (PyBool True) \<longrightarrow>
      fst (SoftDeleteModel_delete flag inst w) =
        map_sum id (\<lambda>u. None) (fst (SoftDeleteModel_soft_delete inst w)) \<and>
      snd (SoftDeleteModel_delete flag inst w) = snd (SoftDeleteModel_soft_delete inst w) \<and>
      fst (SoftDeleteQuerySet_delete flag qs w) =
        map_sum id (\<lambda>u. None) (fst (SoftDeleteQuerySet_soft_delete qs w)) \<and>
      snd (SoftDeleteQuerySet_delete flag qs w) = snd (SoftDeleteQuerySet_soft_delete qs w)) \<and>
   (\<not> py_eq flag (PyBool True) \<and> pending w = [] \<longrightarrow>
      fst (SoftDeleteModel_delete flag inst w) = Inr None \<and>
      fst (SoftDeleteQuerySet_delete flag qs w) = Inr None) \<and>
   (\<not> py_eq flag (PyBool True) \<and>
    SoftDeleteModel_delete flag inst w = (Inr v, inst', w') \<longrightarrow>
      v = None \<and>
      inst' = inst\<lparr>pk := Some (case pk inst of None \<Rightarrow> fresh_key (table w) | Some k \<Rightarrow> k),
                   deleted_at := Some (timezone_now w)\<rparr> \<and>
      deleted_at inst' = Some (timezone_now w) \<and>
      inst' \<in> set (results (get_queryset all_objects) w') \<and>
      (\<forall>r \<in> set (table w'). pk r = pk inst' \<longrightarrow> r = inst') \<and>
      filter (\<lambda>r. pk r \<noteq> pk inst') (table w') = filter (\<lambda>r. pk r \<noteq> pk inst') (table w) \<and>
      pk inst' \<notin> pk ` set (results (chain ls (get_queryset objects)) w') \<and>
      pk inst' \<notin> pk ` set (results (chain ls (get_queryset UserSoftDeleteManager)) w')) \<and>
   (\<not> py_eq flag (PyBool True) \<and>
    SoftDeleteQuerySet_delete flag qs w = (Inr v, qs', w'') \<longrightarrow>
      v = None \<and>
      table w'' =
        map (\<lambda>r. if matches qs r then r\<lparr>deleted_at := Some (timezone_now w)\<rparr> else r)
          (table w) \<and>
      results (chain ls (get_queryset objects)) w'' =
        filter (\<lambda>r. list_all (\<lambda>l. holds l r) ls)
          (filter (\<lambda>r. deleted_at r = None \<and> \<not> matches qs r) (table w)) \<and>
      results (chain ls (get_queryset UserSoftDeleteManager)) w'' =
        filter (\<lambda>r. list_all (\<lambda>l. holds l r) ls)
          (filter (\<lambda>r. deleted_at r = None \<and> \<not> matches qs r) (table w)) \<and>
      (x \<in> set (results qs w) \<longrightarrow>
         x\<lparr>deleted_at := Some (timezone_now w)\<rparr>
           \<in> set (results (get_queryset all_objects) w'') \<and>
         x\<lparr>deleted_at := Some (timezone_now w)\<rparr>
           \<notin> set (results (chain ls (get_queryset objects)) w'') \<and>
         x\<lparr>deleted_at := Some (timezone_now w)\<rparr>
           \<notin> set (results (chain ls (get_queryset UserSoftDeleteManager)) w'')))"
proof -
  let ?now = "timezone_now w"
  have obj: "matches (get_queryset objects) y \<longleftrightarrow> deleted_at y = None"
    for y :: "'a model_instance"
    by (simp add: objects_def matches_managers)
  have usr: "matches (get_queryset UserSoftDeleteManager) y \<longleftrightarrow> deleted_at y = None"
    for y :: "'a model_instance"
    by (simp add: matches_managers)
  have all: "results (get_queryset all_objects) u = table u" for u :: "'a world"
    by (simp add: results_def all_objects_def matches_managers)
  have c1: "r \<in> set (results (get_queryset objects) w) \<longleftrightarrow>
      r \<in> set (table w) \<and> deleted_at r = None"
    by (auto simp: results_def obj)
  have c2: "r \<in> set (results (get_queryset UserSoftDeleteManager) w) \<longleftrightarrow>
      r \<in> set (table w) \<and> deleted_at r = None"
    by (auto simp: results_def matches_managers)
  have c4: "fst (SoftDeleteModel_delete flag inst w) =
        map_sum id (\<lambda>u. None) (fst (SoftDeleteModel_soft_delete inst w)) \<and>
      snd (SoftDeleteModel_delete flag inst w) = snd (SoftDeleteModel_soft_delete inst w) \<and>
      fst (SoftDeleteQuerySet_delete flag qs w) =
        map_sum id (\<lambda>u. None) (fst (SoftDeleteQuerySet_soft_delete qs w)) \<and>
      snd (SoftDeleteQuerySet_delete flag qs w) = snd (SoftDeleteQuerySet_soft_delete qs w)"
    if "\<not> py_eq flag (PyBool True)"
    using model_delete_soft_path [OF that, of inst w]
      queryset_delete_soft_path [OF that, of qs w]
    by simp
  have c5: "fst (SoftDeleteModel_delete flag inst w) = Inr None \<and>
      fst (SoftDeleteQuerySet_delete flag qs w) = Inr None"
    if "\<not> py_eq flag (PyBool True) \<and> pending w = []"
    using that model_delete_soft_succeeds [of flag w inst]
      queryset_delete_soft_succeeds [of flag w qs]
    by simp
  have c6: "v = None \<and>
      inst' = inst\<lparr>pk := Some (case pk inst of None \<Rightarrow> fresh_key (table w) | Some k \<Rightarrow> k),
                   deleted_at := Some ?now\<rparr> \<and>
      deleted_at inst' = Some ?now \<and>
      inst' \<in> set (results (get_queryset all_objects) w') \<and>
      (\<forall>r \<in> set (table w'). pk r = pk inst' \<longrightarrow> r = inst') \<and>
      filter (\<lambda>r. pk r \<noteq> pk inst') (table w') = filter (\<lambda>r. pk r \<noteq> pk inst') (table w) \<and>
      pk inst' \<notin> pk ` set (results (chain ls (get_queryset objects)) w') \<and>
      pk inst' \<notin> pk ` set (results (chain ls (get_queryset UserSoftDeleteManager)) w')"
    if run: "\<not> py_eq flag (PyBool True) \<and>
      SoftDeleteModel_delete flag inst w = (Inr v, inst', w')"
  proof -
    from run have soft: "\<not> py_eq flag (PyBool True)"
      and ret: "SoftDeleteModel_delete flag inst w = (Inr v, inst', w')"
      by simp_all
    note m = model_delete_soft_Inr [OF soft ret]
    from m have v: "v = None"
      and save: "Model_save (inst\<lparr>deleted_at := Some ?now\<rparr>) w = (Inr (), inst', w')"
      by simp_all
    note s = Model_save_Inr [OF save]
    note e = Model_save_result [OF save]
    have inst': "inst' = inst\<lparr>pk := Some (case pk inst of None \<Rightarrow> fresh_key (table w)
                                          | Some k \<Rightarrow> k), deleted_at := Some ?now\<rparr>"
      using e by simp
    have d: "deleted_at inst' = Some ?now"
      using s by simp
    have stored: "inst' \<in> set (results (get_queryset all_objects) w')"
      using s by (simp add: all)
    have only: "\<forall>r \<in> set (table w'). pk r = pk inst' \<longrightarrow> r = inst'"
      using s by simp
    have rest: "filter (\<lambda>r. pk r \<noteq> pk inst') (table w') =
                filter (\<lambda>r. pk r \<noteq> pk inst') (table w)"
      using e by (rule conjunct2)
    have hidden: "pk inst' \<notin> pk ` set (results (chain ls q) w')"
      if q: "\<And>y. matches q y \<longleftrightarrow> deleted_at y = None" for q
    proof
      assume "pk inst' \<in> pk ` set (results (chain ls q) w')"
      then obtain y where y: "y \<in> set (table w')" "matches (chain ls q) y" "pk y = pk inst'"
        by (auto simp: results_def)
      with only have "y = inst'" by blast
      with y d q show False by (simp add: matches_chain)
    qed
    from v inst' d stored only rest hidden [OF obj] hidden [OF usr] show ?thesis
      by (intro conjI)
  qed
  have c7: "v = None \<and>
      table w'' = map (\<lambda>r. if matches qs r then r\<lparr>deleted_at := Some ?now\<rparr> else r) (table w) \<and>
      results (chain ls (get_queryset objects)) w'' =
        filter (\<lambda>r. list_all (\<lambda>l. holds l r) ls)
          (filter (\<lambda>r. deleted_at r = None \<and> \<not> matches qs r) (table w)) \<and>
      results (chain ls (get_queryset UserSoftDeleteManager)) w'' =
        filter (\<lambda>r. list_all (\<lambda>l. holds l r) ls)
          (filter (\<lambda>r. deleted_at r = None \<and> \<not> matches qs r) (table w)) \<and>
      (x \<in> set (results qs w) \<longrightarrow>
         x\<lparr>deleted_at := Some ?now\<rparr> \<in> set (results (get_queryset all_objects) w'') \<and>
         x\<lparr>deleted_at := Some ?now\<rparr> \<notin> set (results (chain ls (get_queryset objects)) w'') \<and>
         x\<lparr>deleted_at := Some ?now\<rparr>
           \<notin> set (results (chain ls (get_queryset UserSoftDeleteManager)) w''))"
    if run: "\<not> py_eq flag (PyBool True) \<and>
      SoftDeleteQuerySet_delete flag qs w = (Inr v, qs', w'')"
  proof -
    from run have soft: "\<not> py_eq flag (PyBool True)"
      and ret: "SoftDeleteQuerySet_delete flag qs w = (Inr v, qs', w'')"
      by simp_all
    note m = queryset_delete_soft_Inr [OF soft ret]
    from m have v: "v = None"
      and sd: "SoftDeleteQuerySet_soft_delete qs w = (Inr (), qs', w'')"
      by simp_all
    from soft_delete_Inr [OF sd] have t: "table w'' =
        map (\<lambda>r. if matches qs r then r\<lparr>deleted_at := Some ?now\<rparr> else r) (table w)"
      by (rule conjunct2 [THEN conjunct1])
    note o = active_after_bulk_update [OF t obj, of ls]
    note u = active_after_bulk_update [OF t usr, of ls]
    have member: "x\<lparr>deleted_at := Some ?now\<rparr> \<in> set (results (get_queryset all_objects) w'')"
      if "x \<in> set (results qs w)"
    proof -
      from that have x: "x \<in> set (table w)" "matches qs x"
        by (simp_all add: results_def)
      have "x\<lparr>deleted_at := Some ?now\<rparr> \<in> set (table w'')"
        unfolding t using x by (auto simp: image_iff intro!: bexI [of _ x])
      then show ?thesis by (simp add: all)
    qed
    have no: "x\<lparr>deleted_at := Some ?now\<rparr> \<notin> set (results (chain ls q) w'')"
      if "\<And>y. matches q y \<longleftrightarrow> deleted_at y = None" for q
      using that by (simp add: results_def matches_chain)
    from v t o u member no [OF obj] no [OF usr] show ?thesis
      by (intro conjI impI)
  qed
  from c1 c2 all [of w] c4 c5 c6 c7 show ?thesis
    by (intro conjI impI) blast+
qed

theorem soft_deleted_hidden_from_objects_witness:
  "fst (SoftDeleteModel_delete (PyStr ''yes'') record_B three_records) = Inr None \<and>
   fst (snd (SoftDeleteModel_delete (PyStr ''yes'') record_B three_records)) =
     record_B\<lparr>deleted_at := Some 7\<rparr> \<and>
   results (get_queryset objects)
     (snd (snd (SoftDeleteModel_delete (PyStr ''yes'') record_B three_records))) =
     [record_A, record_C] \<and>
   results (get_queryset all_objects)
     (snd (snd (SoftDeleteModel_delete (PyStr ''yes'') record_B three_records))) =
     [record_A, record_B\<lparr>deleted_at := Some 7\<rparr>, record_C] \<and>
   fst (SoftDeleteQuerySet_delete (PyStr ''yes'') (get_queryset objects) three_records) =
     Inr None \<and>
   results (get_queryset objects)
     (snd (snd (SoftDeleteQuerySet_delete (PyStr ''yes'') (get_queryset objects)
        three_records))) = [] \<and>
   results (get_queryset all_objects)
     (snd (snd (SoftDeleteQuerySet_delete (PyStr ''yes'') (get_queryset objects)
        three_records))) =
     [record_A\<lparr>deleted_at := Some 7\<rparr>, record_B\<lparr>deleted_at := Some 7\<rparr>,
      record_C\<lparr>deleted_at := Some 7\<rparr>]"
proof -
  let ?flag = "PyStr ''yes''"
  let ?qs = "get_queryset objects :: string queryset"
  let ?single = "SoftDeleteModel_delete ?flag record_B three_records"
  let ?bulk = "SoftDeleteQuerySet_delete ?flag ?qs three_records"
  have soft: "\<not> py_eq ?flag (PyBool True)"
    by (simp add: py_eq_def)
  have calm: "\<not> py_eq ?flag (PyBool True) \<and> pending three_records = []"
    by (simp add: py_eq_def three_records_def)
  note returns = soft_deleted_hidden_from_objects
    [THEN conjunct2, THEN conjunct2, THEN conjunct2, THEN conjunct2, THEN conjunct1,
      rule_format, OF calm, of record_B ?qs]
  have single: "\<not> py_eq ?flag (PyBool True) \<and>
      ?single = (Inr None, fst (snd ?single), snd (snd ?single))"
    using soft returns [THEN conjunct1] by (simp add: prod_eq_iff)
  have bulk: "\<not> py_eq ?flag (PyBool True) \<and>
      ?bulk = (Inr None, fst (snd ?bulk), snd (snd ?bulk))"
    using soft returns [THEN conjunct2] by (simp add: prod_eq_iff)
  note instance_level = soft_deleted_hidden_from_objects
    [THEN conjunct2, THEN conjunct2, THEN conjunct2, THEN conjunct2, THEN conjunct2,
      THEN conjunct1, rule_format, OF single, of "[]"]
  note queryset_level = soft_deleted_hidden_from_objects
    [THEN conjunct2, THEN conjunct2, THEN conjunct2, THEN conjunct2, THEN conjunct2,
      THEN conjunct2, rule_format, OF bulk, of "[]"]
  note everything = soft_deleted_hidden_from_objects
    [THEN conjunct2, THEN conjunct2, THEN conjunct1, of "snd (snd ?bulk)"]
  have now: "timezone_now three_records = 7"
    by (simp add: timezone_now_def three_records_def)
  have i1: "fst (snd ?single) = record_B\<lparr>deleted_at := Some 7\<rparr>"
    using instance_level [THEN conjunct2, THEN conjunct1]
    by (simp add: now record_B_def)
  have i2: "results (get_queryset objects) (snd (snd ?single)) = [record_A, record_C]"
    by (simp add: SoftDeleteModel_delete_def SoftDeleteModel_soft_delete_def py_eq_def
        sample_defs framework_defs manager_defs)
  have i3: "results (get_queryset all_objects) (snd (snd ?single)) =
      [record_A, record_B\<lparr>deleted_at := Some 7\<rparr>, record_C]"
    by (simp add: SoftDeleteModel_delete_def SoftDeleteModel_soft_delete_def py_eq_def
        sample_defs framework_defs manager_defs)
  have b1: "results (get_queryset objects) (snd (snd ?bulk)) = []"
    using queryset_level [THEN conjunct2, THEN conjunct2, THEN conjunct1]
    by (simp add: chain_def sample_defs framework_defs manager_defs)
  have b2: "results (get_queryset all_objects) (snd (snd ?bulk)) =
      [record_A\<lparr>deleted_at := Some 7\<rparr>, record_B\<lparr>deleted_at := Some 7\<rparr>,
       record_C\<lparr>deleted_at := Some 7\<rparr>]"
    using everything queryset_level [THEN conjunct2, THEN conjunct1]
    by (simp add: now) (simp add: sample_defs framework_defs manager_defs)
  from returns i1 i2 i3 b1 b2 show ?thesis
    by (intro conjI) blast+
qed

section \<open>The round trip of the specification\<close>

text \<open>
  C7. On a database of active records, with no failing database call:
  \<open>qs = objects.all(); qs.delete()\<close> returns \<open>None\<close>, leaves every record with a
  non-null \<open>deleted_at\<close>, \<open>objects\<close> counts zero and \<open>all_objects\<close> counts all of
  them; \<open>qs.restore(all_objects)\<close> on that same object then returns and gives back
  the table of the start, so \<open>objects\<close> counts every record again.
\<close>

theorem delete_restore_round_trip:
  assumes active: "list_all (\<lambda>r. deleted_at r = None \<and> pk r \<noteq> None) (table w)"
    and calm: "pending w = []"
    and del: "call_delete None (get_queryset objects) w = (r1, qs1, w1)"
    and res: "call_restore all_objects qs1 w1 = (r2, qs2, w2)"
  shows "r1 = Inr None \<and>
         list_all (\<lambda>r. deleted_at r \<noteq> None) (table w1) \<and>
         QuerySet_count (get_queryset objects) w1 = 0 \<and>
         QuerySet_count (get_queryset all_objects) w1 = length (table w) \<and>
         r2 = Inr () \<and>
         table w2 = table w \<and>
         QuerySet_count (get_queryset objects) w2 = length (table w)"
proof -
  let ?qs = "get_queryset objects :: 'a queryset"
  let ?now = "timezone_now w"
  have cls0: "cls ?qs = SoftDeleteQuerySet"
    by (simp add: manager_defs QuerySet_filter_def new_queryset_def)
  have all_active: "\<forall>r \<in> set (table w). deleted_at r = None \<and> pk r \<noteq> None"
    using active by (simp add: list_all_iff)
  have m0: "matches ?qs r \<longleftrightarrow> deleted_at r = None" for r :: "'a model_instance"
    by (simp add: objects_def matches_managers)
  have mall: "matches (get_queryset all_objects) r" for r :: "'a model_instance"
    by (simp add: all_objects_def matches_managers)
  from soft_delete_succeeds [OF calm, of ?qs] obtain s1 v1 where
    sd: "SoftDeleteQuerySet_soft_delete ?qs w = (Inr (), s1, v1)" and calm1: "pending v1 = []"
    by blast
  have "call_delete None ?qs w = (Inr None, s1, v1)"
    by (simp add: call_delete_def cls0 SoftDeleteQuerySet_delete_def py_eq_def sd)
  with del have r1: "r1 = Inr None" and qs1: "qs1 = s1" and w1: "w1 = v1"
    by simp_all
  note facts = soft_delete_Inr [OF sd]
  have res0: "results ?qs w = table w"
    using all_active by (simp add: results_def m0)
  have t1: "table w1 = map (\<lambda>r. r\<lparr>deleted_at := Some ?now\<rparr>) (table w)"
    using facts all_active by (simp add: w1 m0)
  have cache: "deleted_item_pks qs1 = Some (stored_pks (table w))"
    using facts by (simp add: qs1 res0)
  have cls1: "cls qs1 = SoftDeleteQuerySet"
    using facts cls0 by (simp add: qs1)
  have hidden: "list_all (\<lambda>r. deleted_at r \<noteq> None) (table w1)"
    by (simp add: t1 list_all_iff)
  have c0: "QuerySet_count ?qs w1 = 0"
    by (simp add: QuerySet_count_def results_def m0 t1 filter_empty_conv)
  have call: "QuerySet_count (get_queryset all_objects) w1 = length (table w)"
    by (simp add: QuerySet_count_def results_def mall t1)
  from res have rs: "SoftDeleteQuerySet_restore all_objects qs1 w1 = (r2, qs2, w2)"
    by (simp add: call_restore_def cls1)
  from restore_succeeds [of w1 all_objects qs1] calm1 rs have r2: "r2 = Inr ()"
    by (auto simp: w1)
  have t2: "table w2 = table w"
  proof (cases "stored_pks (table w) = []")
    case True
    with all_active have "table w = []"
      by (intro stored_pks_empty) (simp_all add: list_all_iff)
    moreover from True cache rs have "w2 = w1"
      by (simp add: restore_nothing)
    ultimately show ?thesis by (simp add: t1)
  next
    case False
    from restore_Inr [OF cache False rs [unfolded r2]]
    have "table w2 =
        map (\<lambda>r. if holds (pk__in (stored_pks (table w))) r then r\<lparr>deleted_at := None\<rparr> else r)
          (table w1)"
      by (simp add: mall)
    also have "\<dots> = map (\<lambda>r. r) (table w)"
      unfolding t1 map_map
    proof (rule map_cong [OF refl])
      fix r assume r: "r \<in> set (table w)"
      with all_active obtain k where k: "pk r = Some k" and d: "deleted_at r = None"
        by auto
      from r k have "k \<in> set (stored_pks (table w))"
        by (auto simp: set_stored_pks)
      with k d show "((\<lambda>r. if holds (pk__in (stored_pks (table w))) r
                         then r\<lparr>deleted_at := None\<rparr> else r) \<circ>
                   (\<lambda>r. r\<lparr>deleted_at := Some ?now\<rparr>)) r = r"
        by simp
    qed
    finally show ?thesis by simp
  qed
  have c2: "QuerySet_count ?qs w2 = length (table w)"
    using all_active by (simp add: QuerySet_count_def results_def m0 t2)
  from r1 hidden c0 call r2 t2 c2 show ?thesis
    by simp
qed

theorem delete_restore_round_trip_witness:
  "QuerySet_count (get_queryset objects) (snd (snd soft_deleted)) = 0 \<and>
   QuerySet_count (get_queryset all_objects) (snd (snd soft_deleted)) = 3 \<and>
   table (snd (snd restored)) = [record_A, record_B, record_C] \<and>
   QuerySet_count (get_queryset objects) (snd (snd restored)) = 3"
proof -
  let ?qs = "get_queryset objects :: string queryset"
  have active: "list_all (\<lambda>r. deleted_at r = None \<and> pk r \<noteq> None) (table three_records)"
    by (simp add: sample_defs)
  have calm: "pending three_records = []"
    by (simp add: sample_defs)
  have cls0: "cls ?qs = SoftDeleteQuerySet"
    by (simp add: manager_defs QuerySet_filter_def new_queryset_def)
  have cls1: "cls (fst (snd soft_deleted)) = SoftDeleteQuerySet"
    by (simp add: soft_deleted_eq)
  have del: "call_delete None ?qs three_records =
      (Inr None, fst (snd soft_deleted), snd (snd soft_deleted))"
    by (simp add: call_delete_def cls0 SoftDeleteQuerySet_delete_def py_eq_def
        soft_deleted_def [symmetric]) (simp add: soft_deleted_eq)
  have res: "call_restore all_objects (fst (snd soft_deleted)) (snd (snd soft_deleted)) =
      (Inr (), fst (snd restored), snd (snd restored))"
    by (simp add: call_restore_def cls1 restored_def [symmetric]) (simp add: restored_eq)
  from delete_restore_round_trip [OF active calm del res] show ?thesis
    by (simp add: sample_defs)
qed

section \<open>Query sets of the unfiltered manager\<close>

text \<open>
  C9. Every query set chained from \<open>all_objects\<close> is a plain \<open>QuerySet\<close>: calling
  \<open>soft_delete()\<close> or \<open>restore(...)\<close> on it raises \<open>AttributeError\<close> and touches
  nothing, and \<open>delete()\<close> on it is the framework's delete, which, when it returns,
  has removed the matched rows from the table.
\<close>

theorem all_objects_queryset_is_plain:
  "cls (chain ls (get_queryset all_objects)) = QuerySet \<and>
   call_soft_delete (chain ls (get_queryset all_objects)) w =
     (Inl (AttributeError ''QuerySet object has no attribute soft_delete''),
      chain ls (get_queryset all_objects), w) \<and>
   call_restore m (chain ls (get_queryset all_objects)) w =
     (Inl (AttributeError ''QuerySet object has no attribute restore''),
      chain ls (get_queryset all_objects), w) \<and>
   fst (call_delete None (chain ls (get_queryset all_objects)) w) =
     map_sum id Some (fst (QuerySet_delete (chain ls (get_queryset all_objects)) w)) \<and>
   snd (snd (call_delete None (chain ls (get_queryset all_objects)) w)) =
     snd (QuerySet_delete (chain ls (get_queryset all_objects)) w) \<and>
   (call_delete None (chain ls (get_queryset all_objects)) w = (Inr v, qs', w') \<longrightarrow>
      table w' = filter (\<lambda>r. \<not> matches (chain ls (get_queryset all_objects)) r) (table w) \<and>
      set (results (chain ls (get_queryset all_objects)) w) \<inter> set (table w') = {})"
proof -
  let ?qs = "chain ls (get_queryset all_objects) :: 'a queryset"
  have c: "cls ?qs = QuerySet"
    by (simp add: cls_chain all_objects_def Manager_get_queryset_def new_queryset_def)
  have call: "call_delete None ?qs w =
      (case QuerySet_delete ?qs w of
         (Inl e, w1) \<Rightarrow> (Inl e, ?qs, w1)
       | (Inr n, w1) \<Rightarrow> (Inr (Some n), ?qs, w1))"
    by (simp add: call_delete_def c)
  have removed: "table w' = filter (\<lambda>r. \<not> matches ?qs r) (table w) \<and>
      set (results ?qs w) \<inter> set (table w') = {}"
    if "call_delete None ?qs w = (Inr v, qs', w')"
  proof -
    from that obtain n where del: "QuerySet_delete ?qs w = (Inr n, w')"
      unfolding call by (auto split: prod.splits sum.splits)
    from delete_Inr [OF del] show ?thesis
      by (auto simp: results_def)
  qed
  have d1: "fst (call_delete None ?qs w) = map_sum id Some (fst (QuerySet_delete ?qs w))"
    unfolding call by (simp split: prod.splits sum.splits)
  have d2: "snd (snd (call_delete None ?qs w)) = snd (QuerySet_delete ?qs w)"
    unfolding call by (simp split: prod.splits sum.splits)
  have s: "call_soft_delete ?qs w =
     (Inl (AttributeError ''QuerySet object has no attribute soft_delete''), ?qs, w)"
    by (simp add: call_soft_delete_def c)
  have r: "call_restore m ?qs w =
     (Inl (AttributeError ''QuerySet object has no attribute restore''), ?qs, w)"
    by (simp add: call_restore_def c)
  from c s r d1 d2 removed show ?thesis
    by blast
qed

theorem all_objects_queryset_is_plain_witness:
  "call_delete None (chain [] (get_queryset all_objects)) three_records =
     (Inr (Some 3), get_queryset all_objects,
      three_records\<lparr>table := [], statements := [DELETE_ROWS [1, 2, 3]]\<rparr>) \<and>
   set (results (chain [] (get_queryset all_objects)) three_records) \<inter>
     set (table (three_records\<lparr>table := [], statements := [DELETE_ROWS [1, 2, 3]]\<rparr>)) = {}"
proof -
  let ?qs = "chain [] (get_queryset all_objects) :: string queryset"
  let ?w = "three_records\<lparr>table := [], statements := [DELETE_ROWS [1, 2, 3]]\<rparr>"
  have run: "call_delete None ?qs three_records = (Inr (Some 3), get_queryset all_objects, ?w)"
    by (simp add: call_delete_def chain_def sample_defs framework_defs manager_defs)
  note removed = all_objects_queryset_is_plain
    [THEN conjunct2, THEN conjunct2, THEN conjunct2, THEN conjunct2, THEN conjunct2,
      rule_format, OF run]
  from removed have "set (results ?qs three_records) \<inter> set (table ?w) = {}"
    by (rule conjunct2)
  with run show ?thesis
    by (intro conjI)
qed

section \<open>The frame of the instance methods\<close>




end
